theory Spec2Isabelle
  imports Main "HOL-Library.Sublist" "HOL-Library.Multiset"
begin

section \<open>JavaScript strings and arrays\<close>

text \<open>
  The indexing and retrieval code of the chat component works on JavaScript strings and
  arrays. A JavaScript string is a sequence of UTF-16 code units; here a string is a
  \<open>char list\<close> and one \<open>char\<close> stands for one code unit below \<open>0x100\<close> (the Latin-1
  range). On that range the built-ins the component uses (\<open>toLowerCase\<close>, \<open>trim\<close>,
  \<open>includes\<close>, \<open>substring\<close>, \<open>split\<close> and \<open>replace\<close> with the patterns \<open>\s\<close> and \<open>\w\<close>)
  act code unit by code unit, as defined below.
\<close>

text \<open>The class \<open>\s\<close> (white space and line terminators): TAB, LF, VT, FF, CR, SP, NBSP.\<close>

definition isSpace :: "char \<Rightarrow> bool" where
  "isSpace c = (c \<in> set [CHR 0x09, CHR 0x0A, CHR 0x0B, CHR 0x0C, CHR 0x0D, CHR 0x20, CHR 0xA0])"

text \<open>The class \<open>\w\<close>: ASCII letters, digits and the underscore.\<close>

definition isWordChar :: "char \<Rightarrow> bool" where
  "isWordChar c =
     (c \<in> set ''abcdefghijklmnopqrstuvwxyzABCDEFGHIJKLMNOPQRSTUVWXYZ0123456789_'')"

text \<open>
  \<open>toLowerCase\<close>: the letters \<open>A\<close>..\<open>Z\<close> (65..90) and the Latin-1 capitals 192..222 other than
  the multiplication sign 215 move up by 32, which sets bit 5 of the code unit; every
  other code unit below \<open>0x100\<close> is unchanged.
\<close>

definition isUpper :: "char \<Rightarrow> bool" where
  "isUpper c = (let n = of_char c :: nat in
     (65 \<le> n \<and> n \<le> 90) \<or> (192 \<le> n \<and> n \<le> 222 \<and> n \<noteq> 215))"

definition toLowerChar :: "char \<Rightarrow> char" where
  "toLowerChar c =
     (if isUpper c
      then (case c of Char b0 b1 b2 b3 b4 b5 b6 b7 \<Rightarrow> Char b0 b1 b2 b3 b4 True b6 b7)
      else c)"

definition toLowerCase :: "string \<Rightarrow> string" where
  "toLowerCase s = map toLowerChar s"

text \<open>\<open>s.trim()\<close> removes the white space at both ends.\<close>

definition trim :: "string \<Rightarrow> string" where
  "trim s = rev (dropWhile isSpace (rev (dropWhile isSpace s)))"

text \<open>
  \<open>s.includes(sub)\<close>: \<open>sub\<close> occurs in \<open>s\<close> as a contiguous run of code units. The empty
  string occurs in every string.
\<close>

primrec includes_str :: "string \<Rightarrow> string \<Rightarrow> bool" where
  "includes_str [] sub = (sub = [])"
| "includes_str (c # cs) sub = (prefix sub (c # cs) \<or> includes_str cs sub)"

text \<open>
  \<open>s.split(/\s+/)\<close> cuts \<open>s\<close> at every maximal run of white space. The pieces before a
  leading run and after a trailing run are empty strings and are part of the result, and
  the empty string splits into one empty piece: \<open>"".split(/\s+/)\<close> is \<open>[""]\<close>,
  \<open>" a b ".split(/\s+/)\<close> is \<open>["", "a", "b", ""]\<close>. The flag of \<open>splitWs\<close> says that the
  previous code unit was white space of the run being skipped.
\<close>

primrec splitWs :: "bool \<Rightarrow> string \<Rightarrow> string list" where
  "splitWs inRun [] = [[]]"
| "splitWs inRun (c # cs) =
     (if isSpace c
      then (if inRun then splitWs True cs else [] # splitWs True cs)
      else (case splitWs False cs of
              [] \<Rightarrow> [[c]]
            | piece # pieces \<Rightarrow> (c # piece) # pieces))"

definition split_ws :: "string \<Rightarrow> string list" where
  "split_ws s = splitWs False s"

text \<open>\<open>xs.join(sep)\<close> on an array of strings.\<close>

fun join :: "string \<Rightarrow> string list \<Rightarrow> string" where
  "join sep [] = []"
| "join sep [x] = x"
| "join sep (x # y # ys) = x @ sep @ join sep (y # ys)"

text \<open>
  \<open>xs.sort(cmp)\<close> with a comparator that orders the elements consistently: the sort is
  stable (ECMAScript 2019), so the result is the one an insertion sort gives that puts an
  element in front of the first element it does not compare greater than. \<open>cmp a b < 0\<close>
  puts \<open>a\<close> first, \<open>cmp a b > 0\<close> puts \<open>b\<close> first, \<open>cmp a b = 0\<close> keeps their order.
\<close>

primrec insort_cmp :: "('a \<Rightarrow> 'a \<Rightarrow> int) \<Rightarrow> 'a \<Rightarrow> 'a list \<Rightarrow> 'a list" where
  "insort_cmp cmp x [] = [x]"
| "insort_cmp cmp x (y # ys) =
     (if cmp x y \<le> 0 then x # y # ys else y # insort_cmp cmp x ys)"

definition array_sort :: "('a \<Rightarrow> 'a \<Rightarrow> int) \<Rightarrow> 'a list \<Rightarrow> 'a list" where
  "array_sort cmp xs = foldr (insort_cmp cmp) xs []"

section \<open>The index\<close>

text \<open>
  \<open>interface IndexEntry { id: string; content: string; keywords: string[];
  timestamp: Date; relevanceScore?: number }\<close>. The timestamp is a number of milliseconds;
  the optional score is a count, absent on the entries the index stores.
\<close>

record IndexEntry =
  id_str :: string
  content :: string
  keywords_list :: "string list"
  timestamp :: nat
  relevanceScore :: "nat option"

section \<open>Retrieval\<close>

text \<open>
  The reduction over the keywords of one entry: each keyword adds the number of query
  words it contains or is contained in.
\<close>

definition keywordMatches :: "string list \<Rightarrow> string \<Rightarrow> nat" where
  "keywordMatches queryWords keyword =
     length (filter (\<lambda>word. includes_str (toLowerCase keyword) word
                          \<or> includes_str word (toLowerCase keyword)) queryWords)"

definition scoreEntry :: "string list \<Rightarrow> IndexEntry \<Rightarrow> nat" where
  "scoreEntry queryWords entry =
     foldl (\<lambda>score keyword. score + keywordMatches queryWords keyword) 0 (keywords_list entry)"

text \<open>\<open>entry.relevanceScore! > 0\<close> and \<open>entry.relevanceScore || 0\<close>.\<close>

definition scorePositive :: "IndexEntry \<Rightarrow> bool" where
  "scorePositive entry = (case relevanceScore entry of None \<Rightarrow> False | Some s \<Rightarrow> 0 < s)"

definition scoreOrZero :: "IndexEntry \<Rightarrow> nat" where
  "scoreOrZero entry = (case relevanceScore entry of None \<Rightarrow> 0 | Some s \<Rightarrow> s)"

definition byScoreDesc :: "IndexEntry \<Rightarrow> IndexEntry \<Rightarrow> int" where
  "byScoreDesc a b = int (scoreOrZero b) - int (scoreOrZero a)"

text \<open>
  \<open>findRelevantIndexEntries\<close> reads the component's state \<open>documentIndex\<close>, passed here as
  an argument: \<open>map\<close> copies every entry with its score, \<open>filter\<close> keeps the positive ones,
  \<open>sort\<close> orders the kept copies and \<open>slice(0, 5)\<close> keeps the first five.
\<close>

definition addScore :: "string list \<Rightarrow> IndexEntry \<Rightarrow> IndexEntry" where
  "addScore queryWords entry = entry\<lparr>relevanceScore := Some (scoreEntry queryWords entry)\<rparr>"

definition findRelevantIndexEntries :: "string \<Rightarrow> IndexEntry list \<Rightarrow> IndexEntry list" where
  "findRelevantIndexEntries query documentIndex =
     (let queryWords = split_ws (toLowerCase query) in
      take 5 (array_sort byScoreDesc
        (filter scorePositive (map (addScore queryWords) documentIndex))))"

section \<open>The fallback keyword extractor\<close>

text \<open>
  \<open>text.toLowerCase().replace(/[^\w\s]/g, ' ').split(/\s+/).filter(word => word.length > 3)\<close>:
  every code unit that is neither a word character nor white space becomes a space.
\<close>

definition blankOther :: "char \<Rightarrow> char" where
  "blankOther c = (if isWordChar c \<or> isSpace c then c else CHR '' '')"

definition extractWords :: "string \<Rightarrow> string list" where
  "extractWords text =
     filter (\<lambda>word. 3 < length word) (split_ws (map blankOther (toLowerCase text)))"

text \<open>
  The frequency table \<open>wordFreq\<close> is an ordinary object: its own properties in creation
  order, on top of \<open>Object.prototype\<close>. A value is a count or, for the one key that meets an
  inherited property, a string: \<open>wordFreq['constructor']\<close> is at first the inherited function
  \<open>Object\<close>, which is truthy, so \<open>(wordFreq[word] || 0) + 1\<close> is that function's text followed
  by \<open>1\<close>; only that such a value is not a number matters below.
\<close>

datatype freq = Count nat | Str

type_synonym wordTable = "(string \<times> freq) list"

text \<open>
  \<open>wordFreq[word] = (wordFreq[word] || 0) + 1\<close>. An own count \<open>n\<close> becomes \<open>n + 1\<close> and an own
  string stays a string, in place. A new key is appended with count 1, except the two
  lower-case names that \<open>Object.prototype\<close> defines: \<open>constructor\<close> is appended with a string,
  and the assignment to \<open>__proto__\<close> of a string is ignored by that accessor, so \<open>__proto__\<close>
  never becomes a key.
\<close>

fun bumpOwn :: "string \<Rightarrow> wordTable \<Rightarrow> wordTable" where
  "bumpOwn word [] = []"
| "bumpOwn word ((k, v) # rest) =
     (if k = word
      then (k, (case v of Count n \<Rightarrow> Count (n + 1) | Str \<Rightarrow> Str)) # rest
      else (k, v) # bumpOwn word rest)"

definition countWord :: "wordTable \<Rightarrow> string \<Rightarrow> wordTable" where
  "countWord wordFreq word =
     (if word \<in> fst ` set wordFreq then bumpOwn word wordFreq
      else if word = ''__proto__'' then wordFreq
      else if word = ''constructor'' then wordFreq @ [(word, Str)]
      else wordFreq @ [(word, Count 1)])"

text \<open>
  \<open>Object.entries\<close> lists the keys that are array indices first, in ascending numeric
  order, and then the other keys in creation order. An array index is the canonical
  decimal form of an integer from 0 to \<open>2^32 - 2\<close>: digits only, no leading zero.
\<close>

definition isDigit :: "char \<Rightarrow> bool" where
  "isDigit c = (c \<in> set ''0123456789'')"

definition decimalValue :: "string \<Rightarrow> nat" where
  "decimalValue key = foldl (\<lambda>n c. 10 * n + (of_char c - 48)) 0 key"

definition isArrayIndex :: "string \<Rightarrow> bool" where
  "isArrayIndex key =
     (key \<noteq> [] \<and> list_all isDigit key \<and> (key = ''0'' \<or> hd key \<noteq> CHR ''0'')
      \<and> decimalValue key \<le> 4294967294)"

definition objectEntries :: "wordTable \<Rightarrow> wordTable" where
  "objectEntries wordFreq =
     sort_key (\<lambda>e. decimalValue (fst e)) (filter (\<lambda>e. isArrayIndex (fst e)) wordFreq)
     @ filter (\<lambda>e. \<not> isArrayIndex (fst e)) wordFreq"

text \<open>
  The comparator \<open>([,a], [,b]) => b - a\<close>: the difference of two counts, and \<open>NaN\<close> (here
  \<open>None\<close>) as soon as one value is the string.
\<close>

fun byFreqDesc :: "string \<times> freq \<Rightarrow> string \<times> freq \<Rightarrow> int option" where
  "byFreqDesc (ka, Count a) (kb, Count b) = Some (int b - int a)"
| "byFreqDesc (ka, va) (kb, vb) = None"

text \<open>
  A comparator that returns \<open>NaN\<close> on some pair is not a consistent comparison function,
  and then the language leaves the order of the sorted array to the implementation, which
  still returns the same elements. That order is the parameter \<open>engine\<close>. Without a \<open>NaN\<close>
  the sort is the stable one.
\<close>

definition sortEntries :: "(wordTable \<Rightarrow> wordTable) \<Rightarrow> wordTable \<Rightarrow> wordTable" where
  "sortEntries engine entries =
     (if Str \<in> snd ` set entries then engine entries
      else array_sort (\<lambda>a b. case byFreqDesc a b of None \<Rightarrow> 0 | Some d \<Rightarrow> d) entries)"

definition extractBasicKeywords :: "(wordTable \<Rightarrow> wordTable) \<Rightarrow> string \<Rightarrow> string list" where
  "extractBasicKeywords engine text =
     (let words = extractWords text;
          wordFreq = foldl countWord [] words
      in map fst (take 10 (sortEntries engine (objectEntries wordFreq))))"

section \<open>The context sent with a query\<close>

text \<open>Decimal digits of a number, as a template literal shows \<open>documentIndex.length\<close>.\<close>

fun showNat :: "nat \<Rightarrow> string" where
  "showNat n =
     (if n < 10 then [''0123456789'' ! n]
      else showNat (n div 10) @ [''0123456789'' ! (n mod 10)])"

definition sessionContext :: "nat \<Rightarrow> string" where
  "sessionContext n =
     ''You are an Autonomous Desktop Agent with advanced document analysis and index parsing capabilities.\<newline>''
     @ ''\<newline>''
     @ ''CORE CAPABILITIES:\<newline>''
     @ ''1. Document Analysis & Index Parsing\<newline>''
     @ ''2. Intelligent Information Retrieval\<newline>''
     @ ''3. Context-Aware Response Generation\<newline>''
     @ ''4. Multi-modal Content Processing\<newline>''
     @ ''\<newline>''
     @ ''CURRENT SESSION CONTEXT:\<newline>''
     @ ''- Active Index Entries: '' @ showNat n @ ''\<newline>''
     @ ''- Query Processing Mode: Enhanced Semantic Search\<newline>''
     @ ''- Relevance Threshold: High Priority\<newline>''
     @ ''\<newline>''"

definition entryLine :: "IndexEntry \<Rightarrow> string" where
  "entryLine entry =
     ''- ['' @ id_str entry @ ''] '' @ take 200 (content entry)
     @ ''... (Keywords: '' @ join '', '' (keywords_list entry) @ '')''"

definition relevantContent :: "IndexEntry list \<Rightarrow> string" where
  "relevantContent relevantEntries =
     ''RELEVANT INDEXED CONTENT:\<newline>''
     @ join ''\<newline>'' (map entryLine relevantEntries) @ ''\<newline>''
     @ ''\<newline>''"

definition processingInstructions :: string where
  "processingInstructions =
     ''PROCESSING INSTRUCTIONS:\<newline>''
     @ ''1. Analyze the user query for intent and context requirements\<newline>''
     @ ''2. Cross-reference with indexed content when applicable\<newline>''
     @ ''3. Provide comprehensive, contextually-aware responses\<newline>''
     @ ''4. Suggest follow-up actions or related information when relevant\<newline>''
     @ ''5. Maintain conversation continuity and context awareness\<newline>''
     @ ''\<newline>''
     @ ''USER QUERY: ''"

definition closingRequest :: string where
  "closingRequest =
     ''\<newline>''
     @ ''\<newline>''
     @ ''Please provide a detailed, contextually-aware response that leverages any relevant indexed content and demonstrates advanced reasoning capabilities.''"

text \<open>
  \<open>buildEnhancedContext\<close>: the context starts with the session block, gets the block of
  relevant content when there are relevant entries, and then the instructions with the
  query and the closing request.
\<close>

definition buildEnhancedContext :: "string \<Rightarrow> IndexEntry list \<Rightarrow> string" where
  "buildEnhancedContext userQuery documentIndex =
     (let relevantEntries = findRelevantIndexEntries userQuery documentIndex;
          context0 = sessionContext (length documentIndex);
          context1 = (if 0 < length relevantEntries
                      then context0 @ relevantContent relevantEntries else context0)
      in context1 @ processingInstructions @ userQuery @ closingRequest)"

section \<open>Indexing\<close>

text \<open>
  \<open>interface Message { id: number; text: string; isUser: boolean; timestamp: Date;
  context?: string }\<close> and the state of the component that indexing touches.
\<close>

record Message =
  msg_id :: nat
  msg_text :: string
  isUser :: bool
  msg_timestamp :: nat
  msg_context :: "string option"

record ChatState =
  messages :: "Message list"
  documentIndex :: "IndexEntry list"
  isIndexing :: bool
  apiKey :: "string option"

text \<open>
  What a call takes from outside: the readings of the clock, one for each place that reads
  it (\<open>Date.now()\<close> in the id of the entry, \<open>new Date()\<close> in its timestamp, \<open>Date.now()\<close> in
  the id of the notice, \<open>new Date()\<close> in its timestamp), and the random suffix
  \<open>Math.random().toString(36).substr(2, 9)\<close> of the entry id.
\<close>

record Env =
  idClock :: nat
  entryDate :: nat
  noticeClock :: nat
  noticeDate :: nat
  randomSuffix :: string

text \<open>
  The completion request either throws or yields the text
  \<open>analysisResponse.choices[0]?.message?.content || ''\<close>.
\<close>

datatype completion = CallFails | Completes string

text \<open>
  The parsed analysis as the entry construction reads it: each of \<open>keywords\<close>, \<open>themes\<close>
  and \<open>entities\<close> is absent or an array of strings, \<open>summary\<close> is absent or a string.
  \<open>JSON.parse\<close> is the parameter \<open>jsonParse\<close>; it yields \<open>None\<close> when \<open>JSON.parse\<close> or the
  reading of the parsed value throws inside the inner \<open>try\<close>.
\<close>

record Analysis =
  an_keywords :: "string list option"
  an_themes :: "string list option"
  an_entities :: "string list option"
  an_summary :: "string option"

datatype failure = CallError | ParseError

text \<open>\<open>!apiKey\<close>: the key is \<open>null\<close> or the empty string.\<close>

definition noKey :: "string option \<Rightarrow> bool" where
  "noKey k = (k = None \<or> k = Some [])"

definition orEmpty :: "string list option \<Rightarrow> string list" where
  "orEmpty xs = (case xs of None \<Rightarrow> [] | Some ys \<Rightarrow> ys)"

definition newEntryId :: "Env \<Rightarrow> string" where
  "newEntryId env = ''idx_'' @ showNat (idClock env) @ ''_'' @ randomSuffix env"

text \<open>
  \<open>keywords: [...(analysis.keywords || []), ...(analysis.themes || []),
  ...(analysis.entities || [])]\<close>.
\<close>

definition analysisKeywords :: "Analysis \<Rightarrow> string list" where
  "analysisKeywords analysis =
     orEmpty (an_keywords analysis) @ orEmpty (an_themes analysis)
     @ orEmpty (an_entities analysis)"

definition newEntry :: "Env \<Rightarrow> string \<Rightarrow> Analysis \<Rightarrow> IndexEntry" where
  "newEntry env text analysis =
     \<lparr>id_str = newEntryId env, content = text, keywords_list = analysisKeywords analysis,
      timestamp = entryDate env, relevanceScore = None\<rparr>"

definition basicEntry :: "(wordTable \<Rightarrow> wordTable) \<Rightarrow> Env \<Rightarrow> string \<Rightarrow> IndexEntry" where
  "basicEntry engine env text =
     \<lparr>id_str = newEntryId env, content = text,
      keywords_list = extractBasicKeywords engine text,
      timestamp = entryDate env, relevanceScore = None\<rparr>"

text \<open>The notice of a successful indexing; its text is modelled after the leading pictograph.\<close>

definition indexMessage :: "Env \<Rightarrow> IndexEntry \<Rightarrow> Analysis \<Rightarrow> Message" where
  "indexMessage env entry analysis =
     \<lparr>msg_id = noticeClock env,
      msg_text = '' Content indexed successfully! Added ''
        @ showNat (length (keywords_list entry))
        @ '' keywords and concepts to the knowledge base. Summary: ''
        @ (case an_summary analysis of
             None \<Rightarrow> ''Content processed and indexed.''
           | Some t \<Rightarrow> if t = [] then ''Content processed and indexed.'' else t),
      isUser = False, msg_timestamp = noticeDate env,
      msg_context = Some ''system_indexing''\<rparr>"

text \<open>The inner \<open>try\<close> block: parse the analysis, append the entry and the notice.\<close>

definition tryParse ::
  "(string \<Rightarrow> Analysis option) \<Rightarrow> Env \<Rightarrow> string \<Rightarrow> string \<Rightarrow> ChatState
     \<Rightarrow> failure + ChatState" where
  "tryParse jsonParse env text analysisText s =
     (case jsonParse analysisText of
        None \<Rightarrow> Inl ParseError
      | Some analysis \<Rightarrow>
          Inr (s\<lparr>documentIndex := documentIndex s @ [newEntry env text analysis],
                 messages := messages s
                   @ [indexMessage env (newEntry env text analysis) analysis]\<rparr>))"

text \<open>
  The outer \<open>try\<close> block: return without a key, call the model, and run the inner \<open>try\<close>
  whose \<open>catch\<close> appends the basic entry.
\<close>

definition tryAnalyse ::
  "(wordTable \<Rightarrow> wordTable) \<Rightarrow> (string \<Rightarrow> Analysis option) \<Rightarrow> Env \<Rightarrow> completion
     \<Rightarrow> string \<Rightarrow> ChatState \<Rightarrow> failure + ChatState" where
  "tryAnalyse engine jsonParse env response text s =
     (if noKey (apiKey s) then Inr s
      else (case response of
              CallFails \<Rightarrow> Inl CallError
            | Completes analysisText \<Rightarrow>
                (case tryParse jsonParse env text analysisText s of
                   Inl parseError \<Rightarrow>
                     Inr (s\<lparr>documentIndex := documentIndex s @ [basicEntry engine env text]\<rparr>)
                 | Inr s' \<Rightarrow> Inr s')))"

text \<open>
  \<open>parseAndIndexContent\<close>: the outer \<open>catch\<close> logs the error and goes on, and \<open>finally\<close> resets
  the flag on every path. The result is \<open>Inl\<close> if an exception leaves the function.
\<close>

definition parseAndIndexContent ::
  "(wordTable \<Rightarrow> wordTable) \<Rightarrow> (string \<Rightarrow> Analysis option) \<Rightarrow> Env \<Rightarrow> completion
     \<Rightarrow> string \<Rightarrow> ChatState \<Rightarrow> failure + ChatState" where
  "parseAndIndexContent engine jsonParse env response text s =
     (let s1 = s\<lparr>isIndexing := True\<rparr>;
          caught = (case tryAnalyse engine jsonParse env response text s1 of
                      Inl error \<Rightarrow> Inr s1
                    | Inr s2 \<Rightarrow> Inr s2)
      in (case caught of
            Inl error \<Rightarrow> Inl error
          | Inr s3 \<Rightarrow> Inr (s3\<lparr>isIndexing := False\<rparr>)))"

section \<open>The trigger in the message handler\<close>

text \<open>
  \<open>inputValue.toLowerCase().includes('index this:') ||
  inputValue.toLowerCase().includes('analyze this:')\<close>.
\<close>

definition wantsIndexing :: "string \<Rightarrow> bool" where
  "wantsIndexing inputValue =
     (includes_str (toLowerCase inputValue) ''index this:''
      \<or> includes_str (toLowerCase inputValue) ''analyze this:'')"

text \<open>
  \<open>inputValue.replace(/^(index this:|analyze this:)/i, '')\<close>: the pattern is anchored at the
  start and ignores case.
\<close>

definition stripTrigger :: "string \<Rightarrow> string" where
  "stripTrigger inputValue =
     (if prefix ''index this:'' (toLowerCase inputValue) then drop 11 inputValue
      else if prefix ''analyze this:'' (toLowerCase inputValue) then drop 13 inputValue
      else inputValue)"

text \<open>
  The argument with which \<open>handleSendMessage\<close> calls \<open>parseAndIndexContent\<close>, or \<open>None\<close> when
  it does not call it: the handler returns at once on a blank input or without a key, and
  it skips the call when nothing is left to index.
\<close>

definition indexingRequest :: "string option \<Rightarrow> string \<Rightarrow> string option" where
  "indexingRequest key inputValue =
     (if trim inputValue = [] \<or> noKey key then None
      else if wantsIndexing inputValue
      then (let contentToIndex = trim (stripTrigger inputValue)
            in if contentToIndex \<noteq> [] then Some contentToIndex else None)
      else None)"

text \<open>
  The system context that \<open>handleSendMessage\<close> builds for the completion request, or \<open>None\<close>
  when it returns before: the guard \<open>if (!inputValue.trim() || !apiKey) return;\<close> stops a
  blank input, and otherwise the handler calls \<open>buildEnhancedContext(inputValue)\<close> with the
  input as it was typed, not trimmed. \<open>documentIndex\<close> is the index of the render that
  created the handler; the indexing step before the call never throws, and the client is
  constructed with a key, which does not fail.
\<close>

definition systemContext :: "string option \<Rightarrow> string \<Rightarrow> IndexEntry list \<Rightarrow> string option" where
  "systemContext key inputValue index =
     (if trim inputValue = [] \<or> noKey key then None
      else Some (buildEnhancedContext inputValue index))"

section \<open>Retrieval on the store\<close>

text \<open>
  Arrays and objects are mutable and shared by reference, and \<open>sort\<close> sorts its array in
  place. To see which arrays and objects \<open>findRelevantIndexEntries\<close> writes, the same
  function is given on an explicit store: \<open>objects\<close> holds the entry objects and \<open>arrays\<close>
  the arrays of references to objects; a reference is a position in one of the two lists
  and a new object or array goes to the end. An operation yields \<open>None\<close> when it follows a
  reference that the store does not hold.
\<close>

type_synonym ref = nat

record store =
  objects :: "IndexEntry list"
  arrays :: "ref list list"

definition objectAt :: "store \<Rightarrow> ref \<Rightarrow> IndexEntry option" where
  "objectAt h r = (if r < length (objects h) then Some (objects h ! r) else None)"

definition arrayAt :: "store \<Rightarrow> ref \<Rightarrow> ref list option" where
  "arrayAt h a = (if a < length (arrays h) then Some (arrays h ! a) else None)"

definition newObject :: "IndexEntry \<Rightarrow> store \<Rightarrow> ref \<times> store" where
  "newObject entry h = (length (objects h), h\<lparr>objects := objects h @ [entry]\<rparr>)"

definition newArray :: "ref list \<Rightarrow> store \<Rightarrow> ref \<times> store" where
  "newArray refs h = (length (arrays h), h\<lparr>arrays := arrays h @ [refs]\<rparr>)"

text \<open>The entries an array refers to.\<close>

definition readArray :: "store \<Rightarrow> ref \<Rightarrow> IndexEntry list option" where
  "readArray h a =
     (case arrayAt h a of None \<Rightarrow> None | Some refs \<Rightarrow> those (map (objectAt h) refs))"

text \<open>
  \<open>xs.map(entry => ({ ...entry, relevanceScore }))\<close>: the spread makes a new object for
  each element, and \<open>map\<close> a new array of the new objects.
\<close>

fun copyEach :: "(IndexEntry \<Rightarrow> IndexEntry) \<Rightarrow> ref list \<Rightarrow> store \<Rightarrow> (ref list \<times> store) option" where
  "copyEach f [] h = Some ([], h)"
| "copyEach f (r # rs) h =
     (case objectAt h r of
        None \<Rightarrow> None
      | Some entry \<Rightarrow>
          (case newObject (f entry) h of
             (r', h1) \<Rightarrow>
               (case copyEach f rs h1 of
                  None \<Rightarrow> None
                | Some (rs', h2) \<Rightarrow> Some (r' # rs', h2))))"

definition map_on_store :: "(IndexEntry \<Rightarrow> IndexEntry) \<Rightarrow> ref \<Rightarrow> store \<Rightarrow> (ref \<times> store) option" where
  "map_on_store f a h =
     (case arrayAt h a of
        None \<Rightarrow> None
      | Some refs \<Rightarrow>
          (case copyEach f refs h of
             None \<Rightarrow> None
           | Some (refs', h1) \<Rightarrow> Some (newArray refs' h1)))"

text \<open>\<open>xs.filter(p)\<close>: a new array of the references whose objects satisfy \<open>p\<close>.\<close>

fun keepRefs :: "(IndexEntry \<Rightarrow> bool) \<Rightarrow> store \<Rightarrow> ref list \<Rightarrow> ref list option" where
  "keepRefs p h [] = Some []"
| "keepRefs p h (r # rs) =
     (case objectAt h r of
        None \<Rightarrow> None
      | Some entry \<Rightarrow>
          (case keepRefs p h rs of
             None \<Rightarrow> None
           | Some kept \<Rightarrow> Some (if p entry then r # kept else kept)))"

definition filter_on_store :: "(IndexEntry \<Rightarrow> bool) \<Rightarrow> ref \<Rightarrow> store \<Rightarrow> (ref \<times> store) option" where
  "filter_on_store p a h =
     (case arrayAt h a of
        None \<Rightarrow> None
      | Some refs \<Rightarrow>
          (case keepRefs p h refs of
             None \<Rightarrow> None
           | Some kept \<Rightarrow> Some (newArray kept h)))"

text \<open>\<open>xs.sort(cmp)\<close>: the array itself is reordered and returned.\<close>

definition cmpRefs :: "(IndexEntry \<Rightarrow> IndexEntry \<Rightarrow> int) \<Rightarrow> store \<Rightarrow> ref \<Rightarrow> ref \<Rightarrow> int" where
  "cmpRefs cmp h a b =
     (case objectAt h a of
        None \<Rightarrow> 0
      | Some x \<Rightarrow> (case objectAt h b of None \<Rightarrow> 0 | Some y \<Rightarrow> cmp x y))"

definition sort_on_store :: "(IndexEntry \<Rightarrow> IndexEntry \<Rightarrow> int) \<Rightarrow> ref \<Rightarrow> store \<Rightarrow> (ref \<times> store) option" where
  "sort_on_store cmp a h =
     (case arrayAt h a of
        None \<Rightarrow> None
      | Some refs \<Rightarrow>
          Some (a, h\<lparr>arrays := (arrays h)[a := array_sort (cmpRefs cmp h) refs]\<rparr>))"

text \<open>\<open>xs.slice(0, n)\<close>: a new array of the first \<open>n\<close> references.\<close>

definition slice_on_store :: "nat \<Rightarrow> ref \<Rightarrow> store \<Rightarrow> (ref \<times> store) option" where
  "slice_on_store n a h =
     (case arrayAt h a of None \<Rightarrow> None | Some refs \<Rightarrow> Some (newArray (take n refs) h))"

text \<open>
  \<open>documentIndex.map(...).filter(...).sort(...).slice(0, 5)\<close> on the store, with
  \<open>index\<close> the reference of the array \<open>documentIndex\<close>.
\<close>

definition findRelevantIndexEntries_on_store :: "string \<Rightarrow> ref \<Rightarrow> store \<Rightarrow> (ref \<times> store) option" where
  "findRelevantIndexEntries_on_store query index h =
     (let queryWords = split_ws (toLowerCase query) in
      case map_on_store (addScore queryWords) index h of
        None \<Rightarrow> None
      | Some (mapped, h1) \<Rightarrow>
          (case filter_on_store scorePositive mapped h1 of
             None \<Rightarrow> None
           | Some (filtered, h2) \<Rightarrow>
               (case sort_on_store byScoreDesc filtered h2 of
                  None \<Rightarrow> None
                | Some (ordered, h3) \<Rightarrow> slice_on_store 5 ordered h3)))"

section \<open>The specification's wording\<close>

text \<open>
  The query tokens as the specification has them: the runs of the lower-cased query
  between white space. A token is never empty, and a blank query has no token.
\<close>

definition specTokens :: "string \<Rightarrow> string list" where
  "specTokens query = filter (\<lambda>token. token \<noteq> []) (split_ws (toLowerCase query))"

text \<open>
  The relevance score as the specification words it: the number of pairs of a keyword
  and a query token, each taken by its position, such that the token is a substring of
  the lower-cased keyword or the lower-cased keyword is a substring of the token
  (\<open>sublist xs ys\<close> says that \<open>ys = ps @ xs @ ss\<close> for some \<open>ps\<close> and \<open>ss\<close>).
\<close>

definition matchingPairs :: "string list \<Rightarrow> string list \<Rightarrow> nat" where
  "matchingPairs tokens kws =
     card {(i, j). i < length kws \<and> j < length tokens
                   \<and> (sublist (tokens ! j) (toLowerCase (kws ! i))
                        \<or> sublist (toLowerCase (kws ! i)) (tokens ! j))}"

text \<open>
  The fallback ranking as the specification words it: the distinct tokens in the order
  in which they first appear, sorted by falling frequency, a tie keeping the order of
  first appearance, and the first ten of them.
\<close>

definition firstSeen :: "string list \<Rightarrow> string list" where
  "firstSeen words = rev (remdups (rev words))"

definition topTenByFrequency :: "string list \<Rightarrow> string list" where
  "topTenByFrequency words =
     take 10 (sort_key (\<lambda>w. - int (count_list words w)) (firstSeen words))"

text \<open>
  The tokens as the specification words them: lower-case the content, strip (delete)
  every character that is neither alphanumeric nor white space, split on white space and
  discard the tokens of length at most 3.
\<close>

definition isAlphanumeric :: "char \<Rightarrow> bool" where
  "isAlphanumeric c =
     (c \<in> set ''abcdefghijklmnopqrstuvwxyzABCDEFGHIJKLMNOPQRSTUVWXYZ0123456789'')"

definition strippedWords :: "string \<Rightarrow> string list" where
  "strippedWords text =
     filter (\<lambda>word. 3 < length word)
       (split_ws (filter (\<lambda>c. isAlphanumeric c \<or> isSpace c) (toLowerCase text)))"

section \<open>Facts about the built-ins\<close>

lemmas js_string_simps = toLowerCase_def toLowerChar_def isUpper_def isSpace_def isWordChar_def
  split_ws_def trim_def

lemmas scoring_simps = addScore_def scoreEntry_def keywordMatches_def scorePositive_def
  scoreOrZero_def byScoreDesc_def array_sort_def

lemma includes_str_sublist: "includes_str s sub \<longleftrightarrow> sublist sub s"
  by (induction s) (simp_all add: sublist_Cons_right)

lemma foldl_add_sum_list:
  "foldl (\<lambda>score k. score + f k) (a::nat) ks = a + sum_list (map f ks)"
  by (induction ks arbitrary: a) simp_all

lemma sum_list_filter_card:
  "sum_list (map (\<lambda>k. length (filter (Q k) ts)) ks)
     = card {(i, j). i < length ks \<and> j < length ts \<and> Q (ks ! i) (ts ! j)}"
proof -
  have set_eq: "{(i, j). i < length ks \<and> j < length ts \<and> Q (ks ! i) (ts ! j)}
      = (SIGMA i:{..<length ks}. {j. j < length ts \<and> Q (ks ! i) (ts ! j)})"
    by auto
  have "sum_list (map (\<lambda>k. length (filter (Q k) ts)) ks)
      = (\<Sum>i<length ks. length (filter (Q (ks ! i)) ts))"
    by (simp add: sum_list_sum_nth atLeast0LessThan)
  also have "\<dots> = (\<Sum>i<length ks. card {j. j < length ts \<and> Q (ks ! i) (ts ! j)})"
    by (simp add: length_filter_conv_card)
  also have "\<dots> = card (SIGMA i:{..<length ks}. {j. j < length ts \<and> Q (ks ! i) (ts ! j)})"
    by (subst card_SigmaI) simp_all
  finally show ?thesis by (simp only: set_eq)
qed

lemma scoreEntry_matchingPairs:
  "scoreEntry tokens entry = matchingPairs tokens (keywords_list entry)"
  unfolding scoreEntry_def matchingPairs_def keywordMatches_def includes_str_sublist
  by (simp add: foldl_add_sum_list sum_list_filter_card)

lemma brown_fox_tokens: "split_ws (toLowerCase ''brown fox'') = [''brown'', ''fox'']"
  by (simp add: js_string_simps)

lemma fox_words:
  "extractWords ''The quick brown fox jumps over the lazy dog''
     = [''quick'', ''brown'', ''jumps'', ''over'', ''lazy'']"
  by (simp add: extractWords_def blankOther_def js_string_simps)

lemma fox_keywords:
  "extractBasicKeywords engine ''The quick brown fox jumps over the lazy dog''
     = [''quick'', ''brown'', ''jumps'', ''over'', ''lazy'']"
  unfolding extractBasicKeywords_def Let_def fox_words
  by (simp add: countWord_def objectEntries_def isArrayIndex_def isDigit_def sortEntries_def
      array_sort_def)

lemma fox_query:
  "findRelevantIndexEntries ''brown fox''
     [basicEntry engine env ''The quick brown fox jumps over the lazy dog'']
   = [(basicEntry engine env ''The quick brown fox jumps over the lazy dog'')
        \<lparr>relevanceScore := Some 1\<rparr>]"
  unfolding findRelevantIndexEntries_def Let_def brown_fox_tokens fox_keywords basicEntry_def
  by (simp add: scoring_simps toLowerCase_def toLowerChar_def isUpper_def)

section \<open>Retrieval: scores, ranking and the blank query\<close>

text \<open>The scored copies are sorted as their originals are by the score.\<close>

lemma scoreOrZero_addScore: "scoreOrZero (addScore tokens e) = scoreEntry tokens e"
  by (simp add: scoreOrZero_def addScore_def)

lemma scorePositive_addScore: "scorePositive (addScore tokens e) \<longleftrightarrow> 0 < scoreEntry tokens e"
  by (simp add: scorePositive_def addScore_def)

lemma insort_cmp_scored:
  "insort_cmp byScoreDesc (addScore tokens x) (map (addScore tokens) ys)
     = map (addScore tokens) (insort_key (\<lambda>e. - int (scoreEntry tokens e)) x ys)"
  by (induction ys) (simp_all add: byScoreDesc_def scoreOrZero_addScore)

lemma array_sort_scored:
  "array_sort byScoreDesc (map (addScore tokens) xs)
     = map (addScore tokens) (sort_key (\<lambda>e. - int (scoreEntry tokens e)) xs)"
proof (induction xs)
  case Nil show ?case by (simp add: array_sort_def)
next
  case (Cons x xs)
  then show ?case
    using insort_cmp_scored
      [where tokens = tokens and x = x and ys = "sort_key (\<lambda>e. - int (scoreEntry tokens e)) xs"]
    by (simp add: array_sort_def)
qed

lemma findRelevant_as_sort_key:
  "findRelevantIndexEntries query idx
     = take 5 (map (addScore (split_ws (toLowerCase query)))
         (sort_key (\<lambda>e. - int (scoreEntry (split_ws (toLowerCase query)) e))
            (filter (\<lambda>e. 0 < scoreEntry (split_ws (toLowerCase query)) e) idx)))"
proof -
  let ?t = "split_ws (toLowerCase query)"
  have "filter scorePositive (map (addScore ?t) idx)
      = map (addScore ?t) (filter (\<lambda>e. 0 < scoreEntry ?t e) idx)"
    by (simp add: filter_map comp_def scorePositive_addScore)
  then show ?thesis
    by (simp add: findRelevantIndexEntries_def Let_def array_sort_scored)
qed

lemma fox_tokens: "split_ws (toLowerCase ''fox'') = [''fox'']"
  by (simp add: js_string_simps)

lemma fox_space_tokens: "split_ws (toLowerCase ''fox '') = [''fox'', []]"
  by (simp add: js_string_simps)


text \<open>
  Claim C1 says that the score of a record is the number of (keyword, query token) pairs
  in which the lower-cased keyword contains the token or the token contains the
  lower-cased keyword, and that a record with score 0 is discarded. The handler passes
  the input to the retrieval as it was typed, and the split keeps an empty piece after a
  trailing space; the empty piece is contained in every keyword. For the input \<open>fox\<close>
  followed by a space, on an index of one entry with the keyword dog, the query reaches
  the retrieval, the only token is fox, no pair matches, and the entry is returned with
  the score 1.
\<close>

theorem trailing_space_scores_unmatched_entry:
  "systemContext (Some ''gsk_1'') ''fox ''
     [\<lparr>id_str = ''idx_2_b'', content = ''A dog'', keywords_list = [''dog''], timestamp = 2,
       relevanceScore = None\<rparr>]
   = Some (buildEnhancedContext ''fox ''
       [\<lparr>id_str = ''idx_2_b'', content = ''A dog'', keywords_list = [''dog''], timestamp = 2,
         relevanceScore = None\<rparr>])
   \<and> findRelevantIndexEntries ''fox ''
       [\<lparr>id_str = ''idx_2_b'', content = ''A dog'', keywords_list = [''dog''], timestamp = 2,
         relevanceScore = None\<rparr>]
     = [\<lparr>id_str = ''idx_2_b'', content = ''A dog'', keywords_list = [''dog''], timestamp = 2,
         relevanceScore = Some 1\<rparr>]
   \<and> specTokens ''fox '' = [''fox'']
   \<and> matchingPairs (specTokens ''fox '') [''dog''] = 0"
proof -
  let ?dog = "\<lparr>id_str = ''idx_2_b'', content = ''A dog'', keywords_list = [''dog''], timestamp = 2,
       relevanceScore = None\<rparr>"
  have reach: "systemContext (Some ''gsk_1'') ''fox '' [?dog]
      = Some (buildEnhancedContext ''fox '' [?dog])"
    by (simp add: systemContext_def noKey_def trim_def isSpace_def)
  have run: "findRelevantIndexEntries ''fox '' [?dog] = [?dog\<lparr>relevanceScore := Some 1\<rparr>]"
    unfolding findRelevantIndexEntries_def Let_def fox_space_tokens
    by (simp add: scoring_simps toLowerCase_def toLowerChar_def isUpper_def)
  have toks: "specTokens ''fox '' = [''fox'']"
    by (simp add: specTokens_def fox_space_tokens)
  have "matchingPairs [''fox''] [''dog''] = scoreEntry [''fox''] ?dog"
    by (simp add: scoreEntry_matchingPairs)
  also have "\<dots> = 0"
    by (simp add: scoreEntry_def keywordMatches_def toLowerCase_def toLowerChar_def isUpper_def)
  finally have "matchingPairs (specTokens ''fox '') [''dog''] = 0" by (simp only: toks)
  with reach run toks show ?thesis by simp
qed

text \<open>
  Claim C2. For every query and every index, the result of \<open>findRelevantIndexEntries\<close>
  is the first five elements of a list: the entries of the index with a positive score,
  each with its score attached, in falling order of score, the entries of any one score
  standing in the order in which the index holds them (the entry inserted first wins a
  tie). The result has at most five elements. The score is the one the scoring step
  computes for the entry, \<open>scoreEntry\<close> on the tokens of the query.
\<close>

theorem findRelevant_top_five_stable:
  "\<exists>ranked.
     findRelevantIndexEntries query idx
       = take 5 (map (\<lambda>e. e\<lparr>relevanceScore := Some (scoreEntry (split_ws (toLowerCase query)) e)\<rparr>)
                   ranked)
     \<and> mset ranked = mset (filter (\<lambda>e. 0 < scoreEntry (split_ws (toLowerCase query)) e) idx)
     \<and> sorted_wrt (\<lambda>a b. scoreEntry (split_ws (toLowerCase query)) b
                          \<le> scoreEntry (split_ws (toLowerCase query)) a) ranked
     \<and> (\<forall>k. filter (\<lambda>e. scoreEntry (split_ws (toLowerCase query)) e = k) ranked
            = filter (\<lambda>e. scoreEntry (split_ws (toLowerCase query)) e = k)
                (filter (\<lambda>e. 0 < scoreEntry (split_ws (toLowerCase query)) e) idx))
     \<and> length (findRelevantIndexEntries query idx) \<le> 5"
proof -
  let ?t = "split_ws (toLowerCase query)"
  let ?f = "\<lambda>e. - int (scoreEntry ?t e)"
  let ?cands = "filter (\<lambda>e. 0 < scoreEntry ?t e) idx"
  let ?ranked = "sort_key ?f ?cands"
  have scored: "addScore ?t = (\<lambda>e. e\<lparr>relevanceScore := Some (scoreEntry ?t e)\<rparr>)"
    by (intro ext) (simp add: addScore_def)
  have res: "findRelevantIndexEntries query idx
      = take 5 (map (\<lambda>e. e\<lparr>relevanceScore := Some (scoreEntry ?t e)\<rparr>) ?ranked)"
    unfolding findRelevant_as_sort_key scored ..
  have "sorted (map ?f ?ranked)" by (rule sorted_sort_key)
  then have desc: "sorted_wrt (\<lambda>a b. scoreEntry ?t b \<le> scoreEntry ?t a) ?ranked"
    by (simp add: sorted_map)
  have stable: "filter (\<lambda>e. scoreEntry ?t e = k) ?ranked = filter (\<lambda>e. scoreEntry ?t e = k) ?cands"
    for k using sort_key_stable [of ?f "- int k" ?cands] by simp
  have len: "length (findRelevantIndexEntries query idx) \<le> 5"
    unfolding res by simp
  show ?thesis
    apply (rule exI [of _ ?ranked])
    using res desc stable len by simp
qed

theorem findRelevant_top_five_stable_witness:
  "findRelevantIndexEntries ''fox''
     [\<lparr>id_str = ''a'', content = ''A'', keywords_list = [''fox''], timestamp = 1, relevanceScore = None\<rparr>,
      \<lparr>id_str = ''b'', content = ''B'', keywords_list = [''fox'', ''foxes''], timestamp = 2, relevanceScore = None\<rparr>,
      \<lparr>id_str = ''c'', content = ''C'', keywords_list = [''dog''], timestamp = 3, relevanceScore = None\<rparr>,
      \<lparr>id_str = ''d'', content = ''D'', keywords_list = [''Fox''], timestamp = 4, relevanceScore = None\<rparr>]
   = [\<lparr>id_str = ''b'', content = ''B'', keywords_list = [''fox'', ''foxes''], timestamp = 2, relevanceScore = Some 2\<rparr>,
      \<lparr>id_str = ''a'', content = ''A'', keywords_list = [''fox''], timestamp = 1, relevanceScore = Some 1\<rparr>,
      \<lparr>id_str = ''d'', content = ''D'', keywords_list = [''Fox''], timestamp = 4, relevanceScore = Some 1\<rparr>]
   \<and> length (findRelevantIndexEntries ''fox''
     [\<lparr>id_str = ''a'', content = ''A'', keywords_list = [''fox''], timestamp = 1, relevanceScore = None\<rparr>,
      \<lparr>id_str = ''b'', content = ''B'', keywords_list = [''fox'', ''foxes''], timestamp = 2, relevanceScore = None\<rparr>,
      \<lparr>id_str = ''c'', content = ''C'', keywords_list = [''dog''], timestamp = 3, relevanceScore = None\<rparr>,
      \<lparr>id_str = ''d'', content = ''D'', keywords_list = [''Fox''], timestamp = 4, relevanceScore = None\<rparr>]) \<le> 5"
proof -
  let ?a = "\<lparr>id_str = ''a'', content = ''A'', keywords_list = [''fox''], timestamp = 1, relevanceScore = None\<rparr>"
  let ?b = "\<lparr>id_str = ''b'', content = ''B'', keywords_list = [''fox'', ''foxes''], timestamp = 2, relevanceScore = None\<rparr>"
  let ?c = "\<lparr>id_str = ''c'', content = ''C'', keywords_list = [''dog''], timestamp = 3, relevanceScore = None\<rparr>"
  let ?d = "\<lparr>id_str = ''d'', content = ''D'', keywords_list = [''Fox''], timestamp = 4, relevanceScore = None\<rparr>"
  have sc: "scoreEntry [''fox''] ?a = 1" "scoreEntry [''fox''] ?b = 2"
    "scoreEntry [''fox''] ?c = 0" "scoreEntry [''fox''] ?d = 1"
    by (simp_all add: scoreEntry_def keywordMatches_def toLowerCase_def toLowerChar_def isUpper_def)
  from findRelevant_top_five_stable [of "''fox''" "[?a, ?b, ?c, ?d]"]
  obtain ranked where
    r: "findRelevantIndexEntries ''fox'' [?a, ?b, ?c, ?d]
          = take 5 (map (\<lambda>e. e\<lparr>relevanceScore := Some (scoreEntry [''fox''] e)\<rparr>) ranked)"
    and st: "\<And>k. filter (\<lambda>e. scoreEntry [''fox''] e = k) ranked
          = filter (\<lambda>e. scoreEntry [''fox''] e = k)
              (filter (\<lambda>e. 0 < scoreEntry [''fox''] e) [?a, ?b, ?c, ?d])"
    and m: "mset ranked = mset (filter (\<lambda>e. 0 < scoreEntry [''fox''] e) [?a, ?b, ?c, ?d])"
    and d: "sorted_wrt (\<lambda>a b. scoreEntry [''fox''] b \<le> scoreEntry [''fox''] a) ranked"
    and l: "length (findRelevantIndexEntries ''fox'' [?a, ?b, ?c, ?d]) \<le> 5"
    unfolding fox_tokens by blast
  have run: "findRelevantIndexEntries ''fox'' [?a, ?b, ?c, ?d]
      = [?b\<lparr>relevanceScore := Some 2\<rparr>, ?a\<lparr>relevanceScore := Some 1\<rparr>,
         ?d\<lparr>relevanceScore := Some 1\<rparr>]"
    unfolding findRelevantIndexEntries_def Let_def fox_tokens
    by (simp add: scoring_simps toLowerCase_def toLowerChar_def isUpper_def)
  from run l show ?thesis by simp
qed




section \<open>The scenario of the brown fox\<close>

text \<open>
  Claim C7 says that the fallback keywords of "The quick brown fox jumps over the lazy
  dog" include quick, brown, fox, jumps, over and lazy, and that the query "brown fox"
  then returns the entry with a score of at least 2. The extractor keeps the words longer
  than three characters, so fox is dropped like the and dog, and only brown matches:
  the claim fails on both counts.
\<close>

theorem fox_scenario_counterexample:
  "\<not> (set [''quick'', ''brown'', ''fox'', ''jumps'', ''over'', ''lazy'']
         \<subseteq> set (extractBasicKeywords id ''The quick brown fox jumps over the lazy dog''))
   \<and> map scoreOrZero (findRelevantIndexEntries ''brown fox''
         [basicEntry id \<lparr>idClock = 0, entryDate = 0, noticeClock = 0, noticeDate = 0,
              randomSuffix = ''a1b2c3d4e''\<rparr>
            ''The quick brown fox jumps over the lazy dog'']) = [1]"
  by (simp add: fox_keywords fox_query scoreOrZero_def)

text \<open>
  Claim C7, amended. Whatever the engine, the clock and the random suffix, the fallback
  keywords of "The quick brown fox jumps over the lazy dog" are exactly quick, brown,
  jumps, over and lazy, in this order (the, fox and dog have length 3 and are dropped),
  and the query "brown fox" on the index that holds only this entry returns the entry with
  the relevance score 1.
\<close>

theorem fox_scenario:
  "extractBasicKeywords engine ''The quick brown fox jumps over the lazy dog''
     = [''quick'', ''brown'', ''jumps'', ''over'', ''lazy'']
   \<and> findRelevantIndexEntries ''brown fox''
        [basicEntry engine env ''The quick brown fox jumps over the lazy dog'']
     = [(basicEntry engine env ''The quick brown fox jumps over the lazy dog'')
          \<lparr>relevanceScore := Some 1\<rparr>]"
  by (simp add: fox_keywords fox_query)

section \<open>Indexing fails soft\<close>

lemma tryAnalyse_CallFails:
  "tryAnalyse engine jsonParse env CallFails text s = (if noKey (apiKey s) then Inr s else Inl CallError)"
  by (simp add: tryAnalyse_def)

lemma tryAnalyse_Completes:
  "tryAnalyse engine jsonParse env (Completes t) text s =
     Inr (if noKey (apiKey s) then s
          else (case jsonParse t of
                  None \<Rightarrow> s\<lparr>documentIndex := documentIndex s @ [basicEntry engine env text]\<rparr>
                | Some analysis \<Rightarrow>
                    s\<lparr>documentIndex := documentIndex s @ [newEntry env text analysis],
                      messages := messages s
                        @ [indexMessage env (newEntry env text analysis) analysis]\<rparr>))"
  by (simp add: tryAnalyse_def tryParse_def split: option.splits)

text \<open>
  Claim C4, amended. For every content, \<open>parseAndIndexContent\<close> never throws to its caller.
  When a key is present and the response of the model cannot be parsed, it appends one
  entry with the content and the keywords of the fallback extractor and adds no notice.
  When the call of the model itself fails, or when there is no key, it leaves the index
  and the messages as they are. On every path the flag \<open>isIndexing\<close> is reset.
\<close>

theorem indexing_fails_soft:
  "(\<exists>s'. parseAndIndexContent engine jsonParse env response text s = Inr s')
   \<and> (\<not> noKey (apiKey s) \<and> jsonParse analysisText = None \<longrightarrow>
        parseAndIndexContent engine jsonParse env (Completes analysisText) text s
          = Inr (s\<lparr>documentIndex := documentIndex s @ [basicEntry engine env text],
                   isIndexing := False\<rparr>))
   \<and> parseAndIndexContent engine jsonParse env CallFails text s = Inr (s\<lparr>isIndexing := False\<rparr>)
   \<and> (noKey (apiKey s) \<longrightarrow>
        parseAndIndexContent engine jsonParse env response text s = Inr (s\<lparr>isIndexing := False\<rparr>))"
proof (intro conjI impI)
  show "\<exists>s'. parseAndIndexContent engine jsonParse env response text s = Inr s'"
    by (cases response)
       (simp_all add: parseAndIndexContent_def Let_def tryAnalyse_CallFails tryAnalyse_Completes)
next
  assume "\<not> noKey (apiKey s) \<and> jsonParse analysisText = None"
  then show "parseAndIndexContent engine jsonParse env (Completes analysisText) text s
          = Inr (s\<lparr>documentIndex := documentIndex s @ [basicEntry engine env text],
                   isIndexing := False\<rparr>)"
    by (simp add: parseAndIndexContent_def Let_def tryAnalyse_Completes)
next
  show "parseAndIndexContent engine jsonParse env CallFails text s = Inr (s\<lparr>isIndexing := False\<rparr>)"
    by (simp add: parseAndIndexContent_def Let_def tryAnalyse_CallFails)
next
  assume "noKey (apiKey s)"
  then show "parseAndIndexContent engine jsonParse env response text s = Inr (s\<lparr>isIndexing := False\<rparr>)"
    by (cases response)
       (simp_all add: parseAndIndexContent_def Let_def tryAnalyse_CallFails tryAnalyse_Completes)
qed

theorem indexing_fails_soft_witness:
  "\<not> noKey (Some ''gsk_1'') \<and> Map.empty ''not json'' = (None :: Analysis option)
   \<and> parseAndIndexContent id Map.empty \<lparr>idClock = 5, entryDate = 6, noticeClock = 7, noticeDate = 8,
          randomSuffix = ''a1b2c3d4e''\<rparr>
        (Completes ''not json'') ''The quick brown fox jumps over the lazy dog''
        \<lparr>messages = [], documentIndex = [], isIndexing = False, apiKey = Some ''gsk_1''\<rparr>
      = Inr \<lparr>messages = [],
             documentIndex = [\<lparr>id_str = ''idx_5_a1b2c3d4e'',
               content = ''The quick brown fox jumps over the lazy dog'',
               keywords_list = [''quick'', ''brown'', ''jumps'', ''over'', ''lazy''],
               timestamp = 6, relevanceScore = None\<rparr>],
             isIndexing = False, apiKey = Some ''gsk_1''\<rparr>
   \<and> noKey None
   \<and> parseAndIndexContent id Map.empty \<lparr>idClock = 5, entryDate = 6, noticeClock = 7, noticeDate = 8,
          randomSuffix = ''a1b2c3d4e''\<rparr>
        (Completes ''not json'') ''The quick brown fox jumps over the lazy dog''
        \<lparr>messages = [], documentIndex = [], isIndexing = True, apiKey = None\<rparr>
      = Inr \<lparr>messages = [], documentIndex = [], isIndexing = False, apiKey = None\<rparr>"
  using indexing_fails_soft [of id Map.empty "\<lparr>idClock = 5, entryDate = 6, noticeClock = 7, noticeDate = 8,
          randomSuffix = ''a1b2c3d4e''\<rparr>"
      "Completes ''not json''" "''The quick brown fox jumps over the lazy dog''"
      "\<lparr>messages = [], documentIndex = [], isIndexing = False, apiKey = Some ''gsk_1''\<rparr>" "''not json''"]
    indexing_fails_soft [of id Map.empty "\<lparr>idClock = 5, entryDate = 6, noticeClock = 7, noticeDate = 8,
          randomSuffix = ''a1b2c3d4e''\<rparr>"
      "Completes ''not json''" "''The quick brown fox jumps over the lazy dog''"
      "\<lparr>messages = [], documentIndex = [], isIndexing = True, apiKey = None\<rparr>" "''not json''"]
  by (simp add: noKey_def basicEntry_def fox_keywords newEntryId_def)

text \<open>
  Claim C4 says that also a failing call of the model leads to the fallback extractor and
  to a new entry. With a key present and the call failing the index stays empty.
\<close>

theorem indexing_call_failure_counterexample:
  "parseAndIndexContent id Map.empty \<lparr>idClock = 5, entryDate = 6, noticeClock = 7, noticeDate = 8,
          randomSuffix = ''a1b2c3d4e''\<rparr>
     CallFails ''The quick brown fox jumps over the lazy dog''
     \<lparr>messages = [], documentIndex = [], isIndexing = False, apiKey = Some ''gsk_1''\<rparr>
   = Inr \<lparr>messages = [], documentIndex = [], isIndexing = False, apiKey = Some ''gsk_1''\<rparr>"
  by (simp add: parseAndIndexContent_def Let_def tryAnalyse_CallFails noKey_def)

section \<open>The trigger\<close>

lemma isSpace_toLowerChar: "isSpace c \<Longrightarrow> toLowerChar c = c"
  by (auto simp: isSpace_def toLowerChar_def isUpper_def)

lemma trim_nonblank:
  assumes "\<not> isSpace c" shows "trim (c # cs) \<noteq> []"
proof -
  have "dropWhile isSpace (rev cs @ [c]) \<noteq> []"
    using assms by (simp add: dropWhile_append)
  then show ?thesis using assms by (simp add: trim_def)
qed

lemma prefix_letter_trim:
  assumes "prefix (l # p) (toLowerCase msg)" "\<not> isSpace l"
  shows "trim msg \<noteq> []"
proof -
  from assms(1) obtain c cs where msg: "msg = c # cs" and l: "toLowerChar c = l"
    by (cases msg) (auto simp: toLowerCase_def)
  have "\<not> isSpace c" using l assms(2) isSpace_toLowerChar by fastforce
  then show ?thesis unfolding msg by (rule trim_nonblank)
qed

lemma prefix_includes_str: "prefix p s \<Longrightarrow> includes_str s p"
  by (simp add: includes_str_sublist prefix_imp_sublist)

lemma wantsIndexing_sublist:
  "wantsIndexing msg \<longleftrightarrow>
     sublist ''index this:'' (toLowerCase msg) \<or> sublist ''analyze this:'' (toLowerCase msg)"
  by (simp add: wantsIndexing_def includes_str_sublist)

text \<open>
  Claim C5, amended. With a key present, a message that begins with \<open>index this:\<close> or
  \<open>analyze this:\<close>, in any mix of upper and lower case, triggers an indexing operation
  if the rest of the message after that prefix, trimmed, is not empty, and the content
  passed on is that trimmed rest; if the rest is blank, no indexing is triggered. A message
  in which neither phrase occurs triggers none.
\<close>

theorem trigger_prefix_passes_remainder:
  "(\<not> noKey key \<and> (p = ''index this:'' \<or> p = ''analyze this:'') \<and> prefix p (toLowerCase msg)
      \<longrightarrow> indexingRequest key msg
          = (if trim (drop (length p) msg) = [] then None
             else Some (trim (drop (length p) msg))))
   \<and> (\<not> sublist ''index this:'' (toLowerCase msg)
        \<and> \<not> sublist ''analyze this:'' (toLowerCase msg)
      \<longrightarrow> indexingRequest key msg = None)"
proof (intro conjI impI)
  assume a: "\<not> noKey key \<and> (p = ''index this:'' \<or> p = ''analyze this:'') \<and> prefix p (toLowerCase msg)"
  then have key: "\<not> noKey key" and pre: "prefix p (toLowerCase msg)" by simp_all
  have "trim msg \<noteq> []"
  proof -
    from a consider "prefix (CHR ''i'' # ''ndex this:'') (toLowerCase msg)"
      | "prefix (CHR ''a'' # ''nalyze this:'') (toLowerCase msg)" by auto
    then show ?thesis
      by cases (erule prefix_letter_trim, simp add: isSpace_def)+
  qed
  moreover from a have "wantsIndexing msg"
    by (auto simp: wantsIndexing_def intro: prefix_includes_str)
  moreover have "stripTrigger msg = drop (length p) msg"
  proof -
    from a consider "p = ''index this:''" | "p = ''analyze this:''" by blast
    then show ?thesis
    proof cases
      case 1 then show ?thesis using pre by (simp add: stripTrigger_def eval_nat_numeral)
    next
      case 2
      then have "\<not> prefix ''index this:'' (toLowerCase msg)"
        using pre by (cases "toLowerCase msg") auto
      then show ?thesis using pre 2 by (simp add: stripTrigger_def eval_nat_numeral)
    qed
  qed
  ultimately show "indexingRequest key msg
          = (if trim (drop (length p) msg) = [] then None
             else Some (trim (drop (length p) msg)))"
    using key by (simp add: indexingRequest_def Let_def)
next
  assume "\<not> sublist ''index this:'' (toLowerCase msg)
        \<and> \<not> sublist ''analyze this:'' (toLowerCase msg)"
  then show "indexingRequest key msg = None"
    by (simp add: indexingRequest_def wantsIndexing_sublist)
qed

lemma cat_lower: "toLowerCase ''Index This:  The cat sat  '' = ''index this:  the cat sat  ''"
  by (simp add: toLowerCase_def toLowerChar_def isUpper_def)

theorem trigger_prefix_passes_remainder_witness:
  "\<not> noKey (Some ''gsk_1'') \<and> prefix ''index this:'' (toLowerCase ''Index This:  The cat sat  '')
   \<and> indexingRequest (Some ''gsk_1'') ''Index This:  The cat sat  '' = Some ''The cat sat''
   \<and> \<not> sublist ''index this:'' (toLowerCase ''What is a cat?'')
   \<and> \<not> sublist ''analyze this:'' (toLowerCase ''What is a cat?'')
   \<and> indexingRequest (Some ''gsk_1'') ''What is a cat?'' = None"
proof -
  have h1: "\<not> noKey (Some ''gsk_1'')" by (simp add: noKey_def)
  have h2: "prefix ''index this:'' (toLowerCase ''Index This:  The cat sat  '')"
    by (simp add: cat_lower)
  have h3: "\<not> sublist ''index this:'' (toLowerCase ''What is a cat?'')"
    "\<not> sublist ''analyze this:'' (toLowerCase ''What is a cat?'')"
    by (simp_all add: includes_str_sublist [symmetric] toLowerCase_def toLowerChar_def isUpper_def)
  have t: "trim (drop (length ''index this:'') ''Index This:  The cat sat  '') = ''The cat sat''"
    by (simp add: trim_def isSpace_def)
  from trigger_prefix_passes_remainder
    [where key = "Some ''gsk_1''" and p = "''index this:''"
       and msg = "''Index This:  The cat sat  ''"] h1 h2
  have r1: "indexingRequest (Some ''gsk_1'') ''Index This:  The cat sat  '' = Some ''The cat sat''"
    unfolding t by simp
  from trigger_prefix_passes_remainder
    [where msg = "''What is a cat?''" and key = "Some ''gsk_1''"] h3
  have r2: "indexingRequest (Some ''gsk_1'') ''What is a cat?'' = None" by blast
  from h1 h2 h3 r1 r2 show ?thesis by blast
qed

text \<open>
  Claim C5 says that indexing is triggered exactly when the message begins with one of the
  prefixes. The message \<open>index this:\<close> begins with the prefix and triggers nothing, since
  nothing is left to index.
\<close>

theorem trigger_bare_prefix_counterexample:
  "\<not> ((indexingRequest (Some ''gsk_1'') ''index this:'' \<noteq> None)
        = (prefix ''index this:'' (toLowerCase ''index this:'')
           \<or> prefix ''analyze this:'' (toLowerCase ''index this:'')))"
  by (simp add: indexingRequest_def noKey_def wantsIndexing_def stripTrigger_def js_string_simps)

text \<open>
  The test for the phrase looks for it anywhere in the message, while the removal is
  anchored at the start: a message with the phrase further in is indexed whole.
\<close>

lemma trigger_inside_message:
  "indexingRequest (Some ''gsk_1'') ''please index this: cats'' = Some ''please index this: cats''"
  by (simp add: indexingRequest_def noKey_def wantsIndexing_def stripTrigger_def js_string_simps)

section \<open>The context\<close>

lemma closingRequest_last: "closingRequest \<noteq> [] \<and> last closingRequest = CHR ''.''"
  by (simp add: closingRequest_def)

lemma context_last: "last (buildEnhancedContext q idx) = CHR ''.''"
  using closingRequest_last by (simp add: buildEnhancedContext_def Let_def)

text \<open>
  Claim C8 says that the user's query is appended at the end of the context. The context
  ends with the closing request, so for the query \<open>hi\<close> on the empty index the context
  does not end with the query.
\<close>

theorem context_query_not_last_counterexample:
  "\<not> suffix ''hi'' (buildEnhancedContext ''hi'' [])"
proof
  assume "suffix ''hi'' (buildEnhancedContext ''hi'' [])"
  then obtain zs where "buildEnhancedContext ''hi'' [] = zs @ ''hi''"
    by (auto simp: suffix_def)
  then have "last (buildEnhancedContext ''hi'' []) = CHR ''i''" by simp
  then show False by (simp add: context_last)
qed

lemma sessionContext_reports_size:
  "sublist (''- Active Index Entries: '' @ showNat n @ ''\<newline>'') (sessionContext n)"
  unfolding sessionContext_def sublist_def
  apply (rule exI [of _ "''You are an Autonomous Desktop Agent with advanced document analysis and index parsing capabilities.\<newline>''
     @ ''\<newline>''
     @ ''CORE CAPABILITIES:\<newline>''
     @ ''1. Document Analysis & Index Parsing\<newline>''
     @ ''2. Intelligent Information Retrieval\<newline>''
     @ ''3. Context-Aware Response Generation\<newline>''
     @ ''4. Multi-modal Content Processing\<newline>''
     @ ''\<newline>''
     @ ''CURRENT SESSION CONTEXT:\<newline>''"])
  apply (rule exI [of _ "''- Query Processing Mode: Enhanced Semantic Search\<newline>''
     @ ''- Relevance Threshold: High Priority\<newline>''
     @ ''\<newline>''"])
  apply (simp only: append_assoc)
  done

text \<open>
  Claim C8, amended. For every query and index the context is the session block, which
  reports the size of the index in the line \<open>- Active Index Entries: n\<close>, then the block of
  relevant content if and only if \<open>findRelevantIndexEntries\<close> returns something, then the
  processing instructions, which end with the label \<open>USER QUERY: \<close>, then the literal
  query, and then the fixed closing request. The block of relevant content is its heading
  and one line per returned entry, in the order of the ranking, of the form
  \<open>- [id] first 200 characters of the content... (Keywords: keywords joined by comma and
  space)\<close>.
\<close>

theorem context_layout:
  "buildEnhancedContext q idx =
     sessionContext (length idx)
     @ (if findRelevantIndexEntries q idx = [] then []
        else ''RELEVANT INDEXED CONTENT:\<newline>''
          @ join ''\<newline>''
              (map (\<lambda>e. ''- ['' @ id_str e @ ''] '' @ take 200 (content e)
                        @ ''... (Keywords: '' @ join '', '' (keywords_list e) @ '')'')
                 (findRelevantIndexEntries q idx))
          @ ''\<newline>\<newline>'')
     @ processingInstructions @ q @ closingRequest
   \<and> sublist (''- Active Index Entries: '' @ showNat (length idx) @ ''\<newline>'')
        (sessionContext (length idx))
   \<and> suffix ''USER QUERY: '' processingInstructions
   \<and> closingRequest = ''\<newline>\<newline>Please provide a detailed, contextually-aware response that leverages any relevant indexed content and demonstrates advanced reasoning capabilities.''"
proof (intro conjI)
  have lines: "map entryLine rs = map (\<lambda>e. ''- ['' @ id_str e @ ''] '' @ take 200 (content e)
                        @ ''... (Keywords: '' @ join '', '' (keywords_list e) @ '')'') rs" for rs
    by (simp add: entryLine_def)
  show "buildEnhancedContext q idx =
     sessionContext (length idx)
     @ (if findRelevantIndexEntries q idx = [] then []
        else ''RELEVANT INDEXED CONTENT:\<newline>''
          @ join ''\<newline>''
              (map (\<lambda>e. ''- ['' @ id_str e @ ''] '' @ take 200 (content e)
                        @ ''... (Keywords: '' @ join '', '' (keywords_list e) @ '')'')
                 (findRelevantIndexEntries q idx))
          @ ''\<newline>\<newline>'')
     @ processingInstructions @ q @ closingRequest"
    unfolding lines [symmetric]
    by (simp add: buildEnhancedContext_def Let_def relevantContent_def)
  show "sublist (''- Active Index Entries: '' @ showNat (length idx) @ ''\<newline>'')
        (sessionContext (length idx))"
    by (rule sessionContext_reports_size)
  show "suffix ''USER QUERY: '' processingInstructions"
    unfolding processingInstructions_def by (simp only: append_assoc [symmetric] suffix_appendI suffix_order.refl)
  show "closingRequest = ''\<newline>\<newline>Please provide a detailed, contextually-aware response that leverages any relevant indexed content and demonstrates advanced reasoning capabilities.''"
    by (simp add: closingRequest_def)
qed

section \<open>The fallback extractor\<close>

lemma bumpOwn_keys: "map fst (bumpOwn w T) = map fst T"
  by (induction w T rule: bumpOwn.induct) simp_all

lemma countWord_keys_distinct:
  "distinct (map fst T) \<Longrightarrow> distinct (map fst (countWord T w))"
  by (simp add: countWord_def bumpOwn_keys)

lemma wordFreq_keys_distinct:
  "distinct (map fst T) \<Longrightarrow> distinct (map fst (foldl countWord T ws))"
  by (induction ws arbitrary: T) (simp_all add: countWord_keys_distinct)

lemma mset_insort_cmp: "mset (insort_cmp cmp x ys) = add_mset x (mset ys)"
  by (induction ys) simp_all

lemma mset_array_sort: "mset (array_sort cmp xs) = mset xs"
  by (induction xs) (simp_all add: array_sort_def mset_insort_cmp)

lemma mset_objectEntries: "mset (objectEntries T) = mset T"
  by (simp add: objectEntries_def)

lemma mset_sortEntries:
  "\<forall>es. mset (engine es) = mset es \<Longrightarrow> mset (sortEntries engine es) = mset es"
  by (simp add: sortEntries_def mset_array_sort)

text \<open>
  Claim C10. For every text the keywords of the fallback extractor are pairwise distinct,
  because they are keys of the frequency table; this holds whatever order the engine
  gives the entries where the language leaves the order open, as long as the engine
  returns the entries it was given. The keywords assembled from an analysis of the model
  can contain a word more than once.
\<close>

theorem fallback_keywords_distinct:
  assumes "\<forall>es. mset (engine es) = mset es"
  shows "distinct (extractBasicKeywords engine text)
    \<and> (\<exists>analysis. \<not> distinct (analysisKeywords analysis))"
proof
  let ?T = "foldl countWord [] (extractWords text)"
  let ?S = "sortEntries engine (objectEntries ?T)"
  have "mset ?S = mset ?T"
    using assms by (simp add: mset_sortEntries mset_objectEntries)
  then have "mset (map fst ?S) = mset (map fst ?T)" by simp
  moreover have "distinct (map fst ?T)" by (rule wordFreq_keys_distinct) simp
  ultimately have "distinct (map fst ?S)"
    using mset_eq_imp_distinct_iff by blast
  then have "distinct (take 10 (map fst ?S))" by (rule distinct_take)
  then show "distinct (extractBasicKeywords engine text)"
    by (simp add: extractBasicKeywords_def Let_def take_map)
next
  have "\<not> distinct (analysisKeywords \<lparr>an_keywords = Some [''fox''], an_themes = Some [''fox''],
      an_entities = None, an_summary = None\<rparr>)"
    by (simp add: analysisKeywords_def orEmpty_def)
  then show "\<exists>analysis. \<not> distinct (analysisKeywords analysis)" ..
qed

lemma constructor_words:
  "extractWords ''The constructor calls the other Constructor; __proto__ too''
     = [''constructor'', ''calls'', ''other'', ''constructor'', ''__proto__'']"
  by (simp add: extractWords_def blankOther_def js_string_simps)

lemma constructor_keywords:
  "extractBasicKeywords rev ''The constructor calls the other Constructor; __proto__ too''
     = [''other'', ''calls'', ''constructor'']"
  unfolding extractBasicKeywords_def Let_def constructor_words
  by (simp add: countWord_def objectEntries_def isArrayIndex_def isDigit_def sortEntries_def)

theorem fallback_keywords_distinct_witness:
  "(\<forall>es :: wordTable. mset (rev es) = mset es)
   \<and> extractBasicKeywords rev ''The constructor calls the other Constructor; __proto__ too''
       = [''other'', ''calls'', ''constructor'']
   \<and> distinct (extractBasicKeywords rev
        ''The constructor calls the other Constructor; __proto__ too'')"
proof -
  have h: "\<forall>es :: wordTable. mset (rev es) = mset es" by simp
  from fallback_keywords_distinct [OF h] constructor_keywords h show ?thesis by blast
qed

text \<open>The frequency table of words that meet no inherited property.\<close>

lemma firstSeen_snoc:
  "firstSeen (ws @ [w]) = (if w \<in> set ws then firstSeen ws else firstSeen ws @ [w])"
  by (simp add: firstSeen_def)

lemma set_firstSeen: "set (firstSeen ws) = set ws"
  by (simp add: firstSeen_def)

lemma distinct_firstSeen: "distinct (firstSeen ws)"
  by (simp add: firstSeen_def)

lemma bumpOwn_counts:
  "distinct ks \<Longrightarrow>
   bumpOwn w (map (\<lambda>k. (k, Count (c k))) ks)
     = map (\<lambda>k. (k, Count (if k = w then c k + 1 else c k))) ks"
  by (induction ks) auto

lemma wordFreq_counts:
  assumes "''constructor'' \<notin> set ws" "''__proto__'' \<notin> set ws"
  shows "foldl countWord [] ws = map (\<lambda>w. (w, Count (count_list ws w))) (firstSeen ws)"
  using assms
proof (induction ws rule: rev_induct)
  case Nil
  show ?case by (simp add: firstSeen_def)
next
  case (snoc w ws)
  then have IH: "foldl countWord [] ws = map (\<lambda>k. (k, Count (count_list ws k))) (firstSeen ws)"
    and w: "w \<noteq> ''constructor''" "w \<noteq> ''__proto__''" by auto
  have keys: "fst ` set (foldl countWord [] ws) = set ws"
    unfolding IH by (simp add: image_image set_firstSeen)
  show ?case
  proof (cases "w \<in> set ws")
    case True
    then have "foldl countWord [] (ws @ [w])
        = bumpOwn w (map (\<lambda>k. (k, Count (count_list ws k))) (firstSeen ws))"
      using keys by (simp add: countWord_def IH)
    also have "\<dots> = map (\<lambda>k. (k, Count (if k = w then count_list ws k + 1 else count_list ws k)))
        (firstSeen ws)"
      by (rule bumpOwn_counts) (rule distinct_firstSeen)
    also have "\<dots> = map (\<lambda>k. (k, Count (count_list (ws @ [w]) k))) (firstSeen (ws @ [w]))"
      using True by (simp add: firstSeen_snoc)
    finally show ?thesis .
  next
    case False
    then have "foldl countWord [] (ws @ [w])
        = map (\<lambda>k. (k, Count (count_list ws k))) (firstSeen ws) @ [(w, Count 1)]"
      using keys w by (simp add: countWord_def IH)
    also have "\<dots> = map (\<lambda>k. (k, Count (count_list (ws @ [w]) k))) (firstSeen (ws @ [w]))"
      using False by (auto simp: firstSeen_snoc set_firstSeen)
    finally show ?thesis .
  qed
qed

lemma objectEntries_no_index:
  assumes "\<forall>e \<in> set T. \<not> isArrayIndex (fst e)"
  shows "objectEntries T = T"
proof -
  have "filter (\<lambda>e. isArrayIndex (fst e)) T = []" using assms by (simp add: filter_empty_conv)
  moreover have "filter (\<lambda>e. \<not> isArrayIndex (fst e)) T = T" using assms by (simp add: filter_id_conv)
  ultimately show ?thesis by (simp add: objectEntries_def)
qed

lemma insort_cmp_counts:
  "insort_cmp (\<lambda>a b. case byFreqDesc a b of None \<Rightarrow> 0 | Some d \<Rightarrow> d) (k, Count (c k))
       (map (\<lambda>k. (k, Count (c k))) ks)
   = map (\<lambda>k. (k, Count (c k))) (insort_key (\<lambda>w. - int (c w)) k ks)"
  by (induction ks) simp_all

lemma array_sort_counts:
  "array_sort (\<lambda>a b. case byFreqDesc a b of None \<Rightarrow> 0 | Some d \<Rightarrow> d)
       (map (\<lambda>k. (k, Count (c k))) ks)
   = map (\<lambda>k. (k, Count (c k))) (sort_key (\<lambda>w. - int (c w)) ks)"
proof (induction ks)
  case Nil show ?case by (simp add: array_sort_def)
next
  case (Cons k ks)
  then show ?case
    using insort_cmp_counts [where c = c and k = k and ks = "sort_key (\<lambda>w. - int (c w)) ks"]
    by (simp add: array_sort_def)
qed

text \<open>
  Claim C6, amended. For every content none of whose words is an array index,
  \<open>constructor\<close> or \<open>__proto__\<close>, the fallback extractor returns the first ten of the
  distinct words sorted by falling frequency, a tie keeping the order of first appearance;
  the words are those of the lower-cased content, in which every character that is
  neither a letter, a digit, an underscore nor white space is replaced by a space, split
  at white space, longer than three characters.
\<close>

theorem fallback_is_top_ten_by_frequency:
  assumes "\<forall>w \<in> set (extractWords text).
             \<not> isArrayIndex w \<and> w \<noteq> ''constructor'' \<and> w \<noteq> ''__proto__''"
  shows "extractBasicKeywords engine text = topTenByFrequency (extractWords text)"
proof -
  let ?ws = "extractWords text"
  let ?g = "\<lambda>w. (w, Count (count_list ?ws w))"
  have T: "foldl countWord [] ?ws = map ?g (firstSeen ?ws)"
    using assms by (intro wordFreq_counts) auto
  have E: "objectEntries (map ?g (firstSeen ?ws)) = map ?g (firstSeen ?ws)"
    using assms by (intro objectEntries_no_index) (auto simp: set_firstSeen)
  have S: "sortEntries engine (map ?g (firstSeen ?ws))
      = map ?g (sort_key (\<lambda>w. - int (count_list ?ws w)) (firstSeen ?ws))"
    unfolding array_sort_counts [symmetric] by (auto simp: sortEntries_def)
  show ?thesis
    unfolding extractBasicKeywords_def Let_def T E S topTenByFrequency_def
    by (simp add: take_map comp_def)
qed

lemma cats_words:
  "extractWords ''Cats chase mice; mice fear cats. Don't feed CATS!''
     = [''cats'', ''chase'', ''mice'', ''mice'', ''fear'', ''cats'', ''feed'', ''cats'']"
  by (simp add: extractWords_def blankOther_def js_string_simps)

lemma cats_ranking:
  "topTenByFrequency [''cats'', ''chase'', ''mice'', ''mice'', ''fear'', ''cats'', ''feed'', ''cats'']
     = [''cats'', ''mice'', ''chase'', ''fear'', ''feed'']"
  by (simp add: topTenByFrequency_def firstSeen_def)

theorem fallback_is_top_ten_by_frequency_witness:
  "list_all (\<lambda>w. \<not> isArrayIndex w \<and> w \<noteq> ''constructor'' \<and> w \<noteq> ''__proto__'')
     (extractWords ''Cats chase mice; mice fear cats. Don't feed CATS!'')
   \<and> extractBasicKeywords id ''Cats chase mice; mice fear cats. Don't feed CATS!''
     = [''cats'', ''mice'', ''chase'', ''fear'', ''feed'']"
proof -
  have h: "\<forall>w \<in> set (extractWords ''Cats chase mice; mice fear cats. Don't feed CATS!'').
             \<not> isArrayIndex w \<and> w \<noteq> ''constructor'' \<and> w \<noteq> ''__proto__''"
    unfolding cats_words by (simp add: isArrayIndex_def isDigit_def)
  from fallback_is_top_ten_by_frequency [OF h, of id]
  have "extractBasicKeywords id ''Cats chase mice; mice fear cats. Don't feed CATS!''
     = [''cats'', ''mice'', ''chase'', ''fear'', ''feed'']"
    unfolding cats_words cats_ranking .
  with h show ?thesis by (simp add: list_all_iff)
qed

lemma hyphen_words:
  "extractWords ''well-known snake_case'' = [''well'', ''known'', ''snake_case'']"
  by (simp add: extractWords_def blankOther_def js_string_simps)

lemma hyphen_code:
  "extractBasicKeywords id ''well-known snake_case'' = [''well'', ''known'', ''snake_case'']"
  unfolding extractBasicKeywords_def Let_def hyphen_words
  by (simp add: countWord_def objectEntries_def isArrayIndex_def isDigit_def sortEntries_def
      array_sort_def)

lemma hyphen_claim:
  "topTenByFrequency (strippedWords ''well-known snake_case'') = [''wellknown'', ''snakecase'']"
  by (simp add: topTenByFrequency_def firstSeen_def strippedWords_def isAlphanumeric_def
      js_string_simps)

lemma year_words: "extractWords ''zebra 2024 1999'' = [''zebra'', ''2024'', ''1999'']"
  by (simp add: extractWords_def blankOther_def js_string_simps)

lemma year_code: "extractBasicKeywords id ''zebra 2024 1999'' = [''1999'', ''2024'', ''zebra'']"
  unfolding extractBasicKeywords_def Let_def year_words
  by (simp add: countWord_def objectEntries_def isArrayIndex_def isDigit_def decimalValue_def
      sortEntries_def array_sort_def)

lemma year_claim:
  "topTenByFrequency (strippedWords ''zebra 2024 1999'') = [''zebra'', ''2024'', ''1999'']"
  by (simp add: topTenByFrequency_def firstSeen_def strippedWords_def isAlphanumeric_def
      js_string_simps)

text \<open>
  Claim C6 says that the characters that are neither alphanumeric nor white space are
  stripped and that a tie keeps the order of first appearance. The extractor puts a space
  in their place and keeps the underscore, so \<open>well-known snake_case\<close> gives well, known
  and snake_case where the claim gives wellknown and snakecase; and the table lists the
  keys that are array indices first, in numeric order, so \<open>zebra 2024 1999\<close> gives 1999,
  2024, zebra where the claim gives zebra, 2024, 1999.
\<close>

theorem fallback_as_claimed_counterexample:
  "extractBasicKeywords id ''well-known snake_case'' = [''well'', ''known'', ''snake_case'']
   \<and> topTenByFrequency (strippedWords ''well-known snake_case'') = [''wellknown'', ''snakecase'']
   \<and> extractBasicKeywords id ''well-known snake_case''
       \<noteq> topTenByFrequency (strippedWords ''well-known snake_case'')
   \<and> extractBasicKeywords id ''zebra 2024 1999'' = [''1999'', ''2024'', ''zebra'']
   \<and> topTenByFrequency (strippedWords ''zebra 2024 1999'') = [''zebra'', ''2024'', ''1999'']
   \<and> extractBasicKeywords id ''zebra 2024 1999''
       \<noteq> topTenByFrequency (strippedWords ''zebra 2024 1999'')"
  by (simp add: hyphen_code hyphen_claim year_code year_claim)

section \<open>Retrieval leaves the store as it was\<close>

lemma those_eq_Some: "those xs = Some ys \<longleftrightarrow> xs = map Some ys"
proof (induction xs arbitrary: ys)
  case Nil show ?case by auto
next
  case (Cons x xs) show ?case
    by (cases x; cases ys) (auto simp: Cons.IH split: option.splits)
qed

lemma readArray_Some:
  "readArray h a = Some es \<longleftrightarrow> (\<exists>rs. arrayAt h a = Some rs \<and> map (objectAt h) rs = map Some es)"
  by (auto simp: readArray_def those_eq_Some split: option.splits)

lemma objectAt_extend:
  "objectAt h r = Some e \<Longrightarrow> prefix (objects h) (objects h') \<Longrightarrow> objectAt h' r = Some e"
  by (auto simp: objectAt_def prefix_def nth_append split: if_splits)

lemma arrayAt_extend:
  "arrayAt h a = Some rs \<Longrightarrow> prefix (arrays h) (arrays h') \<Longrightarrow> arrayAt h' a = Some rs"
  by (auto simp: arrayAt_def prefix_def nth_append split: if_splits)

lemma objectsAt_extend:
  "map (objectAt h) rs = map Some es \<Longrightarrow> prefix (objects h) (objects h')
     \<Longrightarrow> map (objectAt h') rs = map Some es"
proof (induction rs arbitrary: es)
  case Nil then show ?case by simp
next
  case (Cons r rs)
  then obtain e es' where es: "es = e # es'" by (cases es) auto
  with Cons show ?case by (auto intro: objectAt_extend)
qed

lemma readArray_extend:
  "readArray h a = Some es \<Longrightarrow> prefix (objects h) (objects h') \<Longrightarrow> prefix (arrays h) (arrays h')
     \<Longrightarrow> readArray h' a = Some es"
  unfolding readArray_Some by (blast intro: arrayAt_extend objectsAt_extend)

lemma objectAt_arrays_update [simp]: "objectAt (h\<lparr>arrays := A\<rparr>) = objectAt h"
  by (rule ext) (simp add: objectAt_def)

lemma copyEach_result:
  "map (objectAt h) rs = map Some es \<Longrightarrow>
   \<exists>copies. copyEach f rs h = Some (copies, h\<lparr>objects := objects h @ map f es\<rparr>)
     \<and> map (objectAt (h\<lparr>objects := objects h @ map f es\<rparr>)) copies = map Some (map f es)
     \<and> (\<forall>c \<in> set copies. length (objects h) \<le> c)"
proof (induction rs arbitrary: h es)
  case Nil then show ?case by simp
next
  case (Cons r rs)
  then obtain e es' where es: "es = e # es'" and r: "objectAt h r = Some e"
    and rest: "map (objectAt h) rs = map Some es'" by (cases es) auto
  let ?h1 = "h\<lparr>objects := objects h @ [f e]\<rparr>"
  let ?h2 = "h\<lparr>objects := objects h @ f e # map f es'\<rparr>"
  have "map (objectAt ?h1) rs = map Some es'"
    using rest by (rule objectsAt_extend) simp
  from Cons.IH [OF this] obtain copies where
    c: "copyEach f rs ?h1 = Some (copies, ?h2)"
    and o: "map (objectAt ?h2) copies = map Some (map f es')"
    and fresh: "\<forall>c \<in> set copies. Suc (length (objects h)) \<le> c" by auto
  have "objectAt ?h2 (length (objects h)) = Some (f e)"
    by (simp add: objectAt_def)
  moreover from fresh have "\<forall>c \<in> set copies. length (objects h) \<le> c" by auto
  ultimately show ?case using c o r by (simp add: newObject_def es)
qed

lemma keepRefs_result:
  "map (objectAt h) rs = map Some es \<Longrightarrow>
   \<exists>kept. keepRefs p h rs = Some kept \<and> map (objectAt h) kept = map Some (filter p es)
     \<and> set kept \<subseteq> set rs"
proof (induction rs arbitrary: es)
  case Nil then show ?case by simp
next
  case (Cons r rs)
  then obtain e es' where es: "es = e # es'" and r: "objectAt h r = Some e"
    and rest: "map (objectAt h) rs = map Some es'" by (cases es) auto
  from Cons.IH [OF rest] obtain kept where "keepRefs p h rs = Some kept"
    "map (objectAt h) kept = map Some (filter p es')" "set kept \<subseteq> set rs" by blast
  then show ?case using r by (auto simp: es)
qed

lemma insort_refs:
  "objectAt h r = Some e \<Longrightarrow> map (objectAt h) rs = map Some es \<Longrightarrow>
   map (objectAt h) (insort_cmp (cmpRefs cmp h) r rs) = map Some (insort_cmp cmp e es)"
proof (induction rs arbitrary: es)
  case Nil then show ?case by simp
next
  case (Cons r' rs)
  then obtain e' es' where es: "es = e' # es'" and r': "objectAt h r' = Some e'"
    and rest: "map (objectAt h) rs = map Some es'" by (cases es) auto
  show ?case using Cons.IH [OF Cons.prems(1) rest] Cons.prems(1) r' rest
    by (simp add: es cmpRefs_def)
qed

lemma sort_refs:
  "map (objectAt h) rs = map Some es \<Longrightarrow>
   map (objectAt h) (array_sort (cmpRefs cmp h) rs) = map Some (array_sort cmp es)"
proof (induction rs arbitrary: es)
  case Nil then show ?case by (simp add: array_sort_def)
next
  case (Cons r rs)
  then obtain e es' where es: "es = e # es'" and r: "objectAt h r = Some e"
    and rest: "map (objectAt h) rs = map Some es'" by (cases es) auto
  from insort_refs [OF r Cons.IH [OF rest]]
  show ?case by (simp add: es array_sort_def)
qed

lemma on_store_run:
  assumes "readArray h index = Some entries"
  shows "\<exists>result h' copies.
     findRelevantIndexEntries_on_store query index h = Some (result, h')
     \<and> readArray h' result = Some (findRelevantIndexEntries query entries)
     \<and> prefix (objects h) (objects h') \<and> prefix (arrays h) (arrays h')
     \<and> length (arrays h) \<le> result
     \<and> arrayAt h' result = Some copies
     \<and> list_all (\<lambda>r. length (objects h) \<le> r) copies"
proof -
  let ?qw = "split_ws (toLowerCase query)"
  let ?n = "length (arrays h)"
  from assms obtain rs where rs: "arrayAt h index = Some rs"
    and objs: "map (objectAt h) rs = map Some entries"
    unfolding readArray_Some by blast
  let ?scored = "map (addScore ?qw) entries"
  from copyEach_result [OF objs, of "addScore ?qw"] obtain copies where
    c: "copyEach (addScore ?qw) rs h = Some (copies, h\<lparr>objects := objects h @ ?scored\<rparr>)"
    and co: "map (objectAt (h\<lparr>objects := objects h @ ?scored\<rparr>)) copies = map Some ?scored"
    and fresh: "\<forall>c \<in> set copies. length (objects h) \<le> c"
    by blast
  let ?h1 = "h\<lparr>objects := objects h @ ?scored, arrays := arrays h @ [copies]\<rparr>"
  have m: "map_on_store (addScore ?qw) index h = Some (?n, ?h1)"
    using rs c by (simp add: map_on_store_def newArray_def)
  have a1: "arrayAt ?h1 ?n = Some copies" by (simp add: arrayAt_def)
  have o1: "map (objectAt ?h1) copies = map Some ?scored"
    using co by simp
  from keepRefs_result [OF o1, of scorePositive] obtain kept
    where k: "keepRefs scorePositive ?h1 copies = Some kept"
      and ko: "map (objectAt ?h1) kept = map Some (filter scorePositive ?scored)"
      and ks: "set kept \<subseteq> set copies" by blast
  let ?h2 = "?h1\<lparr>arrays := arrays ?h1 @ [kept]\<rparr>"
  have f: "filter_on_store scorePositive ?n ?h1 = Some (Suc ?n, ?h2)"
    using a1 k by (simp add: filter_on_store_def newArray_def)
  let ?ordered = "array_sort (cmpRefs byScoreDesc ?h2) kept"
  let ?h3 = "?h2\<lparr>arrays := (arrays ?h2)[Suc ?n := ?ordered]\<rparr>"
  have s: "sort_on_store byScoreDesc (Suc ?n) ?h2 = Some (Suc ?n, ?h3)"
    by (simp add: sort_on_store_def arrayAt_def nth_append)
  have ko2: "map (objectAt ?h2) kept = map Some (filter scorePositive ?scored)"
    using ko by simp
  have oo: "map (objectAt ?h2) ?ordered
      = map Some (array_sort byScoreDesc (filter scorePositive ?scored))"
    by (rule sort_refs [OF ko2])
  let ?h4 = "?h3\<lparr>arrays := arrays ?h3 @ [take 5 ?ordered]\<rparr>"
  have sl: "slice_on_store 5 (Suc ?n) ?h3 = Some (Suc (Suc ?n), ?h4)"
    by (simp add: slice_on_store_def arrayAt_def nth_append newArray_def)
  have run: "findRelevantIndexEntries_on_store query index h = Some (Suc (Suc ?n), ?h4)"
    by (simp only: findRelevantIndexEntries_on_store_def Let_def m f s sl option.case prod.case)
  have "map (objectAt ?h4) (take 5 ?ordered) = take 5 (map (objectAt ?h2) ?ordered)"
    by (simp add: take_map)
  also have "\<dots> = take 5 (map Some (array_sort byScoreDesc (filter scorePositive ?scored)))"
    by (simp only: oo)
  also have "\<dots> = map Some (take 5 (array_sort byScoreDesc (filter scorePositive ?scored)))"
    by (simp add: take_map)
  finally have rd: "readArray ?h4 (Suc (Suc ?n)) = Some (findRelevantIndexEntries query entries)"
    unfolding readArray_Some
    by (intro exI [of _ "take 5 ?ordered"])
       (simp add: arrayAt_def nth_append findRelevantIndexEntries_def Let_def)
  have "set ?ordered = set kept" by (rule mset_eq_setD) (rule mset_array_sort)
  then have "set (take 5 ?ordered) \<subseteq> set copies"
    using set_take_subset [of 5 ?ordered] ks by simp
  with fresh have fr: "list_all (\<lambda>r. length (objects h) \<le> r) (take 5 ?ordered)"
    unfolding list_all_iff by blast
  have ar: "arrayAt ?h4 (Suc (Suc ?n)) = Some (take 5 ?ordered)"
    by (simp add: arrayAt_def nth_append)
  have p1: "prefix (objects h) (objects ?h4)" by simp
  have p2: "prefix (arrays h) (arrays ?h4)" by (simp add: list_update_append)
  from run rd p1 p2 fr ar show ?thesis
    by (intro exI [of _ "Suc (Suc ?n)"] exI [of _ ?h4] exI [of _ "take 5 ?ordered"]) simp
qed

text \<open>
  Claim C9. On a store whose index array refers to objects of the store, a call of
  \<open>findRelevantIndexEntries\<close> returns a new array that reads as the result of the function
  on the entries of the index; every object and every array that existed before the call
  is unchanged, so the entries of the index are as before and carry no score; the objects
  of the returned array are new ones, the copies; and a second call with the same query
  returns an array that reads the same and again leaves the index as it was.
\<close>

theorem findRelevant_leaves_store:
  assumes "readArray h index = Some entries"
  shows "\<exists>result h' copies.
     findRelevantIndexEntries_on_store query index h = Some (result, h')
     \<and> readArray h' result = Some (findRelevantIndexEntries query entries)
     \<and> prefix (objects h) (objects h') \<and> prefix (arrays h) (arrays h')
     \<and> length (arrays h) \<le> result
     \<and> arrayAt h' result = Some copies
     \<and> list_all (\<lambda>r. length (objects h) \<le> r) copies
     \<and> readArray h' index = Some entries
     \<and> (\<exists>result2 h''.
           findRelevantIndexEntries_on_store query index h' = Some (result2, h'')
           \<and> readArray h'' result2 = Some (findRelevantIndexEntries query entries)
           \<and> readArray h'' index = Some entries)"
proof -
  from on_store_run [OF assms, of query] obtain result h' copies where
    1: "findRelevantIndexEntries_on_store query index h = Some (result, h')"
       "readArray h' result = Some (findRelevantIndexEntries query entries)"
       "prefix (objects h) (objects h')" "prefix (arrays h) (arrays h')"
       "length (arrays h) \<le> result"
       "arrayAt h' result = Some copies"
       "list_all (\<lambda>r. length (objects h) \<le> r) copies" by blast
  have again: "readArray h' index = Some entries"
    using assms 1(3,4) by (rule readArray_extend)
  from on_store_run [OF again, of query] obtain result2 h'' where
    2: "findRelevantIndexEntries_on_store query index h' = Some (result2, h'')"
       "readArray h'' result2 = Some (findRelevantIndexEntries query entries)"
       "prefix (objects h') (objects h'')" "prefix (arrays h') (arrays h'')" by blast
  have "readArray h'' index = Some entries"
    using again 2(3,4) by (rule readArray_extend)
  with 1 2 again show ?thesis by blast
qed


theorem findRelevant_leaves_store_witness:
  "readArray
     \<lparr>objects = [\<lparr>id_str = ''idx_1_a'', content = ''A fox'', keywords_list = [''fox''], timestamp = 1,
                   relevanceScore = None\<rparr>,
                 \<lparr>id_str = ''idx_2_b'', content = ''A dog'', keywords_list = [''dog''], timestamp = 2,
                   relevanceScore = None\<rparr>],
      arrays = [[0, 1]]\<rparr> 0
   = Some [\<lparr>id_str = ''idx_1_a'', content = ''A fox'', keywords_list = [''fox''], timestamp = 1,
             relevanceScore = None\<rparr>,
           \<lparr>id_str = ''idx_2_b'', content = ''A dog'', keywords_list = [''dog''], timestamp = 2,
             relevanceScore = None\<rparr>]
   \<and> (\<exists>result h'.
         findRelevantIndexEntries_on_store ''fox''  0
           \<lparr>objects = [\<lparr>id_str = ''idx_1_a'', content = ''A fox'', keywords_list = [''fox''],
                         timestamp = 1, relevanceScore = None\<rparr>,
                       \<lparr>id_str = ''idx_2_b'', content = ''A dog'', keywords_list = [''dog''],
                         timestamp = 2, relevanceScore = None\<rparr>],
            arrays = [[0, 1]]\<rparr> = Some (result, h')
         \<and> readArray h' result
             = Some [\<lparr>id_str = ''idx_1_a'', content = ''A fox'', keywords_list = [''fox''],
                      timestamp = 1, relevanceScore = Some 1\<rparr>]
         \<and> readArray h' 0
             = Some [\<lparr>id_str = ''idx_1_a'', content = ''A fox'', keywords_list = [''fox''],
                      timestamp = 1, relevanceScore = None\<rparr>,
                    \<lparr>id_str = ''idx_2_b'', content = ''A dog'', keywords_list = [''dog''],
                      timestamp = 2, relevanceScore = None\<rparr>])"
proof -
  let ?e1 = "\<lparr>id_str = ''idx_1_a'', content = ''A fox'', keywords_list = [''fox''], timestamp = 1,
    relevanceScore = None\<rparr>"
  let ?e2 = "\<lparr>id_str = ''idx_2_b'', content = ''A dog'', keywords_list = [''dog''], timestamp = 2,
    relevanceScore = None\<rparr>"
  let ?h = "\<lparr>objects = [?e1, ?e2], arrays = [[0, 1]]\<rparr>"
  have h: "readArray ?h 0 = Some [?e1, ?e2]"
    by (simp add: readArray_def arrayAt_def objectAt_def)
  have q: "findRelevantIndexEntries ''fox'' [?e1, ?e2] = [?e1\<lparr>relevanceScore := Some 1\<rparr>]"
    unfolding findRelevantIndexEntries_def Let_def
    by (simp add: scoring_simps js_string_simps)
  from findRelevant_leaves_store [OF h, of "''fox''"] obtain result h' where
    "findRelevantIndexEntries_on_store ''fox'' 0 ?h = Some (result, h')"
    "readArray h' result = Some (findRelevantIndexEntries ''fox'' [?e1, ?e2])"
    "readArray h' 0 = Some [?e1, ?e2]" by blast
  then have "\<exists>result h'. findRelevantIndexEntries_on_store ''fox'' 0 ?h = Some (result, h')
    \<and> readArray h' result = Some [?e1\<lparr>relevanceScore := Some 1\<rparr>]
    \<and> readArray h' 0 = Some [?e1, ?e2]"
    unfolding q by blast
  with h show ?thesis by simp
qed

end
